theory Spec2Isabelle
  imports Complex_Main "HOL-Library.Multiset"
begin

section \<open>KNN decision boundary: the classification and binning core of App.tsx\<close>

text \<open>
  The development embeds the computational part of \<^verbatim>\<open>drawVisualization\<close> and its inner
  function \<^verbatim>\<open>classifyPoint\<close> (src/src/App.tsx, lines 35 to 134). JavaScript built-ins and
  d3 calls that the code relies on (\<^verbatim>\<open>slice\<close>, \<^verbatim>\<open>sort\<close>, \<^verbatim>\<open>reduce\<close>, \<^verbatim>\<open>d3.rollup\<close>) are
  written out as list functions with their documented behaviour.
\<close>

subsection \<open>Numbers and parsed values\<close>

text \<open>
  A JavaScript number is either \<^verbatim>\<open>NaN\<close> or a finite value. Finite doubles are idealised as
  reals: rounding, overflow and the infinities are not modelled, so a statement about a
  concrete distance is exact only where the double arithmetic is (small integers, as in the
  examples below). The general statements of this theory do not depend on the value of any
  distance.
\<close>

datatype number = NaN | Num real

fun sub :: "number \<Rightarrow> number \<Rightarrow> number" where
  "sub (Num a) (Num b) = Num (a - b)"
| "sub _ _ = NaN"

fun add :: "number \<Rightarrow> number \<Rightarrow> number" where
  "add (Num a) (Num b) = Num (a + b)"
| "add _ _ = NaN"

fun Math_pow :: "number \<Rightarrow> nat \<Rightarrow> number" where
  "Math_pow (Num a) n = Num (a ^ n)"
| "Math_pow NaN n = (if n = 0 then Num 1 else NaN)"

fun Math_sqrt :: "number \<Rightarrow> number" where
  "Math_sqrt (Num a) = (if a < 0 then NaN else Num (sqrt a))"
| "Math_sqrt NaN = NaN"

text \<open>
  The rows come from \<^verbatim>\<open>Papa.parse(csv, { header: true, dynamicTyping: true })\<close> and are
  cast to \<^verbatim>\<open>Penguin[]\<close> (lines 28 and 29), so a field holds whatever the parser produced:
  a number for a numeric cell, \<^verbatim>\<open>null\<close> for an empty cell, a string for any other cell
  (\<^verbatim>\<open>"NA"\<close> in the penguin data), and \<^verbatim>\<open>undefined\<close> when the row is too short to have the
  field. Booleans and dates, which the parser can also produce, are left out.
\<close>

datatype jsval = Undefined | Null | Str string | Number number

text \<open>
  \<^verbatim>\<open>ToNumber\<close>, as applied by \<^verbatim>\<open>-\<close> to a coordinate field: \<^verbatim>\<open>null\<close> becomes \<open>0\<close> and
  \<^verbatim>\<open>undefined\<close> becomes \<^verbatim>\<open>NaN\<close>. A string coordinate stands for a string that does not denote
  a number, such as \<^verbatim>\<open>"NA"\<close>; a string that denotes one behaves as that number in every
  expression of the source and is represented by \<open>Number\<close>.
\<close>

fun ToNumber :: "jsval \<Rightarrow> number" where
  "ToNumber Undefined = NaN"
| "ToNumber Null = Num 0"
| "ToNumber (Str s) = NaN"
| "ToNumber (Number n) = n"

subsection \<open>Data\<close>

text \<open>
  \<^verbatim>\<open>interface Penguin { species; bill_length_mm; bill_depth_mm }\<close> and the objects
  \<^verbatim>\<open>{ species, distance }\<close> built by \<^verbatim>\<open>classifyPoint\<close> share the field \<open>species\<close>; both
  extend one record, so that the accessor \<^verbatim>\<open>d => d.species\<close> applies to either.
  A point is the query \<^verbatim>\<open>[number, number]\<close> of line 73; a datum is the pair
  \<^verbatim>\<open>[d.bill_length_mm, d.bill_depth_mm]\<close> of line 65.
\<close>

record labelled =
  species :: jsval

record Penguin = labelled +
  bill_length_mm :: jsval
  bill_depth_mm :: jsval

record neighbor = labelled +
  distance :: number

type_synonym point = "number \<times> number"

type_synonym datum = "jsval \<times> jsval"

text \<open>
  \<open>TypeError\<close> is what \<^verbatim>\<open>reduce\<close> throws on an empty array when no initial value is given.
  \<open>InsufficientData\<close> is the condition named by the specification; it is listed so that
  statements can speak about it.
\<close>

datatype error = TypeError | InsufficientData

subsection \<open>Built-ins\<close>

text \<open>\<^verbatim>\<open>xs.slice(0, end)\<close> for an integer \<open>end\<close>: a negative \<open>end\<close> counts from the back.\<close>

definition slice0 :: "int \<Rightarrow> 'a list \<Rightarrow> 'a list" where
  "slice0 end xs =
     (let n = int (length xs);
          fin = (if end < 0 then max (n + end) 0 else min end n)
      in take (nat fin) xs)"

text \<open>
  \<^verbatim>\<open>xs.sort(cmp)\<close>. The language standard reads the comparator's result \<open>v\<close> as: \<open>v < 0\<close>
  puts the first argument first, \<open>v > 0\<close> the second, \<open>v = 0\<close> leaves them equal. It fixes the
  result only for a consistent comparator: one that never returns \<^verbatim>\<open>NaN\<close> on the elements
  and whose three relations are reflexive, symmetric and transitive as below.
\<close>

fun negative :: "number \<Rightarrow> bool" where
  "negative (Num v) = (v < 0)"
| "negative NaN = False"

fun zero :: "number \<Rightarrow> bool" where
  "zero (Num v) = (v = 0)"
| "zero NaN = False"

fun positive :: "number \<Rightarrow> bool" where
  "positive (Num v) = (0 < v)"
| "positive NaN = False"

definition consistent :: "('a \<Rightarrow> 'a \<Rightarrow> number) \<Rightarrow> 'a list \<Rightarrow> bool" where
  "consistent cmp xs =
     list_all (\<lambda>a. list_all (\<lambda>b. list_all (\<lambda>c.
         cmp a b \<noteq> NaN \<and> zero (cmp a a)
       \<and> (if zero (cmp a b) then zero (cmp b a) else True)
       \<and> (if zero (cmp a b) \<and> zero (cmp b c) then zero (cmp a c) else True)
       \<and> (if negative (cmp a b) \<and> negative (cmp b c) then negative (cmp a c) else True)
       \<and> (if positive (cmp a b) \<and> positive (cmp b c) then positive (cmp a c) else True))
       xs) xs) xs"

text \<open>
  With a consistent comparator the sort is stable and every conforming engine returns the
  list computed by this insertion sort. Otherwise (here: when a distance is \<^verbatim>\<open>NaN\<close>) the
  order is implementation-defined: the result is whatever rearrangement of the array the
  engine's own algorithm produces. That algorithm is the parameter \<open>engine\<close>; the test on
  its result states that it rearranges and never adds or drops an element.
\<close>

fun insert_sorted :: "('a \<Rightarrow> 'a \<Rightarrow> number) \<Rightarrow> 'a \<Rightarrow> 'a list \<Rightarrow> 'a list" where
  "insert_sorted cmp x [] = [x]"
| "insert_sorted cmp x (y # ys) =
     (if positive (cmp x y) then y # insert_sorted cmp x ys else x # y # ys)"

definition sort_by ::
  "(('a \<Rightarrow> 'a \<Rightarrow> number) \<Rightarrow> 'a list \<Rightarrow> 'a list) \<Rightarrow> ('a \<Rightarrow> 'a \<Rightarrow> number) \<Rightarrow> 'a list \<Rightarrow> 'a list" where
  "sort_by engine cmp xs =
     (if consistent cmp xs then foldr (insert_sorted cmp) xs []
      else if mset (engine cmp xs) = mset xs then engine cmp xs
      else xs)"

text \<open>An engine that leaves an array it cannot order as it is; used in the examples.\<close>

definition keep_order :: "('a \<Rightarrow> 'a \<Rightarrow> number) \<Rightarrow> 'a list \<Rightarrow> 'a list" where
  "keep_order cmp xs = xs"

text \<open>
  \<^verbatim>\<open>d3.rollup(xs, v => v.length, key)\<close> followed by \<^verbatim>\<open>Array.from\<close>: the entries
  \<open>(key, count)\<close> of a map that keeps its keys in the order of their first insertion.
\<close>

fun bump :: "'k \<Rightarrow> ('k \<times> nat) list \<Rightarrow> ('k \<times> nat) list" where
  "bump k [] = [(k, 1)]"
| "bump k ((k', n) # es) = (if k = k' then (k', Suc n) # es else (k', n) # bump k es)"

definition rollup :: "('a \<Rightarrow> 'k) \<Rightarrow> 'a list \<Rightarrow> ('k \<times> nat) list" where
  "rollup key xs = foldl (\<lambda>es x. bump (key x) es) [] xs"

text \<open>\<^verbatim>\<open>xs.reduce(f)\<close> without an initial value.\<close>

fun reduce :: "('a \<Rightarrow> 'a \<Rightarrow> 'a) \<Rightarrow> 'a list \<Rightarrow> error + 'a" where
  "reduce f [] = Inl TypeError"
| "reduce f (x # xs) = Inr (foldl f x xs)"

subsection \<open>classifyPoint\<close>

text \<open>Lines 74 to 77: one entry per point of \<open>limitedData\<close>, in order.\<close>

definition distances :: "Penguin list \<Rightarrow> point \<Rightarrow> neighbor list" where
  "distances limitedData point =
     map (\<lambda>d. \<lparr>species = species d,
               distance = Math_sqrt
                 (add (Math_pow (sub (ToNumber (bill_length_mm d)) (fst point)) 2)
                      (Math_pow (sub (ToNumber (bill_depth_mm d)) (snd point)) 2))\<rparr>)
         limitedData"

text \<open>Lines 78 and 79: sort by distance, keep the first \<open>currentK\<close>.\<close>

type_synonym sort_engine = "(neighbor \<Rightarrow> neighbor \<Rightarrow> number) \<Rightarrow> neighbor list \<Rightarrow> neighbor list"

definition nearestNeighbors :: "sort_engine \<Rightarrow> Penguin list \<Rightarrow> int \<Rightarrow> point \<Rightarrow> neighbor list" where
  "nearestNeighbors engine limitedData currentK point =
     slice0 currentK
       (sort_by engine (\<lambda>a b. sub (distance a) (distance b)) (distances limitedData point))"

text \<open>The callback \<^verbatim>\<open>(a, b) => a[1] > b[1] ? a : b\<close> of lines 81 and 102.\<close>

definition pick :: "'k \<times> nat \<Rightarrow> 'k \<times> nat \<Rightarrow> 'k \<times> nat" where
  "pick a b = (if snd a > snd b then a else b)"

text \<open>
  Line 80 and line 81: the tally, then
  \<^verbatim>\<open>Array.from(speciesCount).reduce((a, b) => a[1] > b[1] ? a : b)[0]\<close>. The accessor
  \<^verbatim>\<open>d => d.species\<close> is the parameter \<open>key\<close>.
\<close>

definition speciesVote :: "('a \<Rightarrow> 'k) \<Rightarrow> 'a list \<Rightarrow> error + 'k" where
  "speciesVote key nearest =
     (let speciesCount = rollup key nearest
      in case reduce pick speciesCount of
           Inl e \<Rightarrow> Inl e
         | Inr a \<Rightarrow> Inr (fst a))"

definition classifyPoint :: "sort_engine \<Rightarrow> Penguin list \<Rightarrow> int \<Rightarrow> point \<Rightarrow> error + jsval" where
  "classifyPoint engine limitedData currentK point =
     speciesVote species (nearestNeighbors engine limitedData currentK point)"

subsection \<open>The hexagonal binning\<close>

text \<open>
  Modelled from the spec: the hexbin generator (package d3-hexbin) is not among the
  sources. Following the specification, a point whose x or y is \<^verbatim>\<open>NaN\<close> is excluded from
  the binning (the generator ignores a point whose scaled x or y is \<^verbatim>\<open>NaN\<close>, and both
  scales map \<^verbatim>\<open>NaN\<close> to \<^verbatim>\<open>NaN\<close>), and each other point is assigned to at most one cell
  (\<^verbatim>\<open>assignBins\<close>);
  \<open>cellOf\<close> names that cell, or is \<open>None\<close> for a point the generator leaves out. \<open>cellOf\<close>
  stands for the accessors of lines 58 and 59 (the axis scales \<open>x\<close>, \<open>y\<close>) followed by the
  generator's rounding to a hexagon. A bin is created when its first point arrives, so bins
  come in the order of first arrival and hold their points in input order.
\<close>

fun assign :: "'c \<Rightarrow> 'p \<Rightarrow> ('c \<times> 'p list) list \<Rightarrow> ('c \<times> 'p list) list" where
  "assign c p [] = [(c, [p])]"
| "assign c p ((c', ps) # bs) =
     (if c = c' then (c', ps @ [p]) # bs else (c', ps) # assign c p bs)"

definition hexbinGenerator :: "(datum \<Rightarrow> 'c option) \<Rightarrow> datum list \<Rightarrow> ('c \<times> datum list) list" where
  "hexbinGenerator cellOf pts =
     foldl (\<lambda>bs p.
              if ToNumber (fst p) = NaN \<or> ToNumber (snd p) = NaN then bs
              else case cellOf p of None \<Rightarrow> bs | Some c \<Rightarrow> assign c p bs)
       [] pts"

subsection \<open>drawVisualization\<close>

text \<open>
  The drawing is kept as far as the two label fields go: one path per hexagon centre and
  one path per bin, each with the value its \<^verbatim>\<open>fill\<close> callback returned (\<open>None\<close> while the
  attribute is not set), and the caption \<^verbatim>\<open>k = ...\<close> that is appended last. The colour
  scale, the path geometry, the axes and their titles are rendering and are left out.
\<close>

record 'c svg =
  decisionField :: "(point \<times> jsval option) list"
  densityField :: "(('c \<times> datum list) \<times> jsval option) list"
  caption :: "int option"

text \<open>
  \<^verbatim>\<open>selection.attr("fill", f)\<close>: the callback runs on the data of the paths in order; an
  exception leaves the paths from there on without the attribute and ends the call.
\<close>

fun attr_fill :: "('d \<Rightarrow> error + 'v) \<Rightarrow> 'd list \<Rightarrow> ('d \<times> 'v option) list \<times> error option" where
  "attr_fill f [] = ([], None)"
| "attr_fill f (d # ds) =
     (case f d of
        Inl e \<Rightarrow> (map (\<lambda>d'. (d', None)) (d # ds), Some e)
      | Inr v \<Rightarrow> (case attr_fill f ds of (filled, r) \<Rightarrow> ((d, Some v) # filled, r)))"

text \<open>Lines 64 and 65.\<close>

definition limitedData :: "Penguin list \<Rightarrow> int \<Rightarrow> Penguin list" where
  "limitedData data currentK = slice0 currentK data"

definition points :: "Penguin list \<Rightarrow> datum list" where
  "points limited = map (\<lambda>d. (bill_length_mm d, bill_depth_mm d)) limited"

text \<open>
  Lines 101 and 102, the \<^verbatim>\<open>fill\<close> callback of a bin. Its elements are the pairs built at
  line 65; such a pair has no property \<^verbatim>\<open>species\<close>, so on it the accessor
  \<^verbatim>\<open>d => d.species\<close> yields \<^verbatim>\<open>undefined\<close>.
\<close>

definition maxSpecies :: "('a \<Rightarrow> 'k) \<Rightarrow> 'a list \<Rightarrow> error + 'k" where
  "maxSpecies key d =
     (let speciesCount = rollup key d
      in case reduce pick speciesCount of
           Inl e \<Rightarrow> Inl e
         | Inr a \<Rightarrow> Inr (fst a))"

definition pair_species :: "datum \<Rightarrow> jsval" where
  "pair_species d = Undefined"

text \<open>
  The state is the content of the \<^verbatim>\<open>svg\<close> element behind \<^verbatim>\<open>svgRef\<close>, \<open>None\<close> while the
  reference is null. The result is the new state and the exception that ended the call, if
  any. \<open>hexPoints\<close> is the value of \<^verbatim>\<open>hexbinGenerator.centers()\<close>, fixed by the extent and
  the radius of lines 60 and 61.
\<close>

definition drawVisualization ::
  "sort_engine \<Rightarrow> Penguin list \<Rightarrow> point list \<Rightarrow> (datum \<Rightarrow> 'c option) \<Rightarrow> int \<Rightarrow> 'c svg option
     \<Rightarrow> 'c svg option \<times> error option" where
  "drawVisualization engine data hexPoints cellOf currentK svgRef =
     (if data = [] \<or> svgRef = None then (svgRef, None)
      else
        let limited = limitedData data currentK;
            bins = hexbinGenerator cellOf (points limited)
        in case attr_fill (classifyPoint engine limited currentK) hexPoints of
             (decision, Some e) \<Rightarrow>
               (Some \<lparr>decisionField = decision, densityField = [], caption = None\<rparr>, Some e)
           | (decision, None) \<Rightarrow>
               (case attr_fill (\<lambda>d. maxSpecies pair_species (snd d)) bins of
                  (density, Some e) \<Rightarrow>
                    (Some \<lparr>decisionField = decision, densityField = density, caption = None\<rparr>,
                     Some e)
                | (density, None) \<Rightarrow>
                    (Some \<lparr>decisionField = decision, densityField = density,
                           caption = Some currentK\<rparr>, None)))"

section \<open>Properties of the built-ins\<close>

lemma mset_insert_sorted: "mset (insert_sorted cmp x xs) = add_mset x (mset xs)"
  by (induction xs) auto

lemma mset_insertion: "mset (foldr (insert_sorted cmp) xs []) = mset xs"
  by (induction xs) (auto simp: mset_insert_sorted)

lemma mset_sort_by: "mset (sort_by engine cmp xs) = mset xs"
  by (simp add: sort_by_def mset_insertion)

lemma length_sort_by: "length (sort_by engine cmp xs) = length xs"
  using mset_sort_by[of engine cmp xs] by (metis size_mset)

lemma slice0_all: "int (length xs) \<le> e \<Longrightarrow> slice0 e xs = xs"
  by (simp add: slice0_def Let_def)

lemma length_slice0: "0 \<le> e \<Longrightarrow> int (length (slice0 e xs)) \<le> e"
  by (simp add: slice0_def Let_def)

lemma slice0_eq_Nil: "1 \<le> e \<Longrightarrow> slice0 e xs = [] \<longleftrightarrow> xs = []"
  by (cases xs) (auto simp: slice0_def Let_def min_def)

lemma rollup_snoc: "rollup key (xs @ [x]) = bump (key x) (rollup key xs)"
  by (simp add: rollup_def)

lemma rollup_Nil: "rollup key [] = []"
  by (simp add: rollup_def)

lemma keys_bump_old: "k \<in> fst ` set es \<Longrightarrow> map fst (bump k es) = map fst es"
  by (induction es) force+

lemma keys_bump_new: "k \<notin> fst ` set es \<Longrightarrow> map fst (bump k es) = map fst es @ [k]"
  by (induction es) auto

lemma keys_bump:
  "map fst (bump k es) = (if k \<in> set (map fst es) then map fst es else map fst es @ [k])"
  by (simp add: keys_bump_old keys_bump_new)

lemma map_of_bump:
  "map_of (bump k es) = (map_of es)(k \<mapsto> (case map_of es k of None \<Rightarrow> 1 | Some n \<Rightarrow> Suc n))"
  by (induction es) (auto simp: fun_eq_iff)

lemma distinct_rollup: "distinct (map fst (rollup key xs))"
  by (induction xs rule: rev_induct) (simp_all add: rollup_Nil rollup_snoc keys_bump)

lemma keys_rollup: "set (map fst (rollup key xs)) = key ` set xs"
  by (induction xs rule: rev_induct) (auto simp: rollup_Nil rollup_snoc keys_bump)

lemma map_of_rollup:
  "map_of (rollup key xs) l =
     (if l \<in> key ` set xs then Some (count_list (map key xs) l) else None)"
proof (induction xs rule: rev_induct)
  case Nil show ?case by (simp add: rollup_Nil)
next
  case (snoc x xs)
  then show ?case by (auto simp: rollup_snoc map_of_bump)
qed

lemma set_rollup:
  "(l, c) \<in> set (rollup key xs) \<longleftrightarrow> l \<in> key ` set xs \<and> c = count_list (map key xs) l"
  using map_of_eq_Some_iff[OF distinct_rollup, of key xs l c]
  by (auto simp: map_of_rollup split: if_splits)

lemma rollup_map: "rollup key (map f xs) = rollup (\<lambda>x. key (f x)) xs"
  by (induction xs rule: rev_induct) (simp_all add: rollup_Nil rollup_snoc)

text \<open>The keys before \<open>l\<close> in the tally are the labels met before the first \<open>l\<close>.\<close>

lemma keys_before:
  "map fst (rollup key xs) = pre @ l # post \<Longrightarrow>
     set pre = set (takeWhile (\<lambda>y. y \<noteq> l) (map key xs))"
proof (induction xs arbitrary: post rule: rev_induct)
  case Nil
  then show ?case by (simp add: rollup_Nil)
next
  case (snoc x xs)
  show ?case
  proof (cases "key x \<in> set (map fst (rollup key xs))")
    case True
    with snoc.prems have ks: "map fst (rollup key xs) = pre @ l # post"
      by (simp add: rollup_snoc keys_bump)
    then have "l \<in> set (map key xs)"
      using keys_rollup[of key xs] by (metis in_set_conv_decomp set_map)
    then have "takeWhile (\<lambda>y. y \<noteq> l) (map key (xs @ [x])) = takeWhile (\<lambda>y. y \<noteq> l) (map key xs)"
      by (auto simp: takeWhile_append1)
    with snoc.IH[OF ks] show ?thesis by simp
  next
    case False
    with snoc.prems have ks: "map fst (rollup key xs) @ [key x] = pre @ l # post"
      by (simp add: rollup_snoc keys_bump)
    show ?thesis
    proof (cases post rule: rev_cases)
      case Nil
      with ks have l: "l = key x" and pre: "pre = map fst (rollup key xs)" by auto
      have "l \<notin> set (map key xs)" using False keys_rollup[of key xs] l by simp
      then have "takeWhile (\<lambda>y. y \<noteq> l) (map key xs @ [l]) = map key xs"
        by (subst takeWhile_append2) auto
      then have "takeWhile (\<lambda>y. y \<noteq> l) (map key (xs @ [x])) = map key xs"
        using l by simp
      then show ?thesis using pre keys_rollup[of key xs] by simp
    next
      case (snoc post' z)
      with ks have ks': "map fst (rollup key xs) = pre @ l # post'" by simp
      then have "l \<in> set (map key xs)"
        using keys_rollup[of key xs] by (metis in_set_conv_decomp set_map)
      then have "takeWhile (\<lambda>y. y \<noteq> l) (map key (xs @ [x])) = takeWhile (\<lambda>y. y \<noteq> l) (map key xs)"
        by (auto simp: takeWhile_append1)
      with snoc.IH[OF ks'] show ?thesis by simp
    qed
  qed
qed

lemma foldl_pick_split:
  "\<exists>pre post. a # xs = pre @ foldl pick a xs # post
      \<and> (\<forall>e \<in> set pre. snd e \<le> snd (foldl pick a xs))
      \<and> (\<forall>e \<in> set post. snd e < snd (foldl pick a xs))"
proof (induction xs rule: rev_induct)
  case Nil
  have "a # [] = [] @ foldl pick a [] # []" by simp
  then show ?case by fastforce
next
  case (snoc b xs)
  define r where "r = foldl pick a xs"
  from snoc obtain pre post where eq: "a # xs = pre @ r # post"
    and le: "\<forall>e \<in> set pre. snd e \<le> snd r" and lt: "\<forall>e \<in> set post. snd e < snd r"
    unfolding r_def by blast
  have step: "foldl pick a (xs @ [b]) = pick r b" by (simp add: r_def)
  show ?case
  proof (cases "snd r > snd b")
    case True
    then have r': "pick r b = r" by (simp add: pick_def)
    have "a # xs @ [b] = pre @ r # (post @ [b])" using eq by simp
    moreover have "\<forall>e \<in> set (post @ [b]). snd e < snd r" using lt True by simp
    ultimately show ?thesis unfolding step r' using le by blast
  next
    case False
    then have r': "pick r b = b" by (simp add: pick_def)
    have all: "\<forall>e \<in> set (a # xs). snd e \<le> snd r"
      unfolding eq using le lt by auto
    then have "\<forall>e \<in> set (a # xs). snd e \<le> snd b" using False by auto
    moreover have "a # xs @ [b] = (a # xs) @ b # []" by simp
    ultimately show ?thesis unfolding step r' by (metis empty_iff empty_set)
  qed
qed

lemma reduce_pick_split:
  assumes "es \<noteq> []"
  shows "\<exists>r pre post. reduce pick es = Inr r \<and> es = pre @ r # post
      \<and> (\<forall>e \<in> set pre. snd e \<le> snd r) \<and> (\<forall>e \<in> set post. snd e < snd r)"
proof -
  from assms obtain a xs where es: "es = a # xs" by (cases es) auto
  from foldl_pick_split[of a xs] show ?thesis unfolding es by auto
qed

lemma speciesVote_Nil: "speciesVote key [] = Inl TypeError"
  by (simp add: speciesVote_def rollup_Nil)

lemma rollup_eq_Nil: "rollup key xs = [] \<longleftrightarrow> xs = []"
  using keys_rollup[of key xs] by (cases xs) (auto simp: rollup_Nil)

lemma speciesVote_result:
  assumes "xs \<noteq> []"
  shows "\<exists>l. speciesVote key xs = Inr l \<and> l \<in> set (map key xs)
    \<and> (\<forall>l'. count_list (map key xs) l' \<le> count_list (map key xs) l)
    \<and> (\<forall>l' \<in> set (map key xs). count_list (map key xs) l' = count_list (map key xs) l \<longrightarrow>
          l' = l \<or> l' \<in> set (takeWhile (\<lambda>y. y \<noteq> l) (map key xs)))"
proof -
  let ?es = "rollup key xs" and ?ks = "map key xs"
  have "?es \<noteq> []" using assms by (simp add: rollup_eq_Nil)
  then obtain r pre post where red: "reduce pick ?es = Inr r" and es: "?es = pre @ r # post"
    and le: "\<forall>e \<in> set pre. snd e \<le> snd r" and lt: "\<forall>e \<in> set post. snd e < snd r"
    using reduce_pick_split by blast
  obtain l c where r: "r = (l, c)" by (cases r)
  have vote: "speciesVote key xs = Inr l" by (simp add: speciesVote_def red r)
  have "(l, c) \<in> set ?es" unfolding es r by simp
  then have l_in: "l \<in> set ?ks" and c: "c = count_list ?ks l" by (auto simp: set_rollup)
  have le_all: "\<forall>e \<in> set ?es. snd e \<le> c" unfolding es using le lt r by auto
  have max: "count_list ?ks l' \<le> count_list ?ks l" for l'
  proof (cases "l' \<in> set ?ks")
    case True
    then have "(l', count_list ?ks l') \<in> set ?es" by (auto simp: set_rollup)
    with le_all show ?thesis unfolding c by fastforce
  next
    case False
    then show ?thesis by (simp add: count_list_0_iff)
  qed
  have keys: "map fst ?es = map fst pre @ l # map fst post" unfolding es r by simp
  have before: "set (map fst pre) = set (takeWhile (\<lambda>y. y \<noteq> l) ?ks)"
    by (rule keys_before[OF keys])
  have tie: "l' = l \<or> l' \<in> set (takeWhile (\<lambda>y. y \<noteq> l) ?ks)"
    if "l' \<in> set ?ks" and eq: "count_list ?ks l' = count_list ?ks l" for l'
  proof -
    from that have mem: "(l', c) \<in> set ?es" by (auto simp: set_rollup c)
    have "(l', c) \<notin> set post" using lt r by fastforce
    with mem have "(l', c) \<in> set pre \<or> l' = l" unfolding es r by auto
    then show ?thesis using before by force
  qed
  from vote l_in max tie show ?thesis by blast
qed

section \<open>Properties of classifyPoint\<close>

lemma nearestNeighbors_all:
  "int (length limited) \<le> k \<Longrightarrow>
     nearestNeighbors engine limited k q =
       sort_by engine (\<lambda>a b. sub (distance a) (distance b)) (distances limited q)"
  by (simp add: nearestNeighbors_def slice0_all length_sort_by distances_def)

lemma nearestNeighbors_eq_Nil:
  "1 \<le> k \<Longrightarrow> nearestNeighbors engine limited k q = [] \<longleftrightarrow> limited = []"
proof -
  assume k: "1 \<le> k"
  have "length (sort_by engine (\<lambda>a b. sub (distance a) (distance b)) (distances limited q)) = length limited"
    by (simp add: length_sort_by distances_def)
  then have "sort_by engine (\<lambda>a b. sub (distance a) (distance b)) (distances limited q) = [] \<longleftrightarrow> limited = []"
    by (metis length_0_conv)
  then show ?thesis by (simp add: nearestNeighbors_def slice0_eq_Nil[OF k])
qed

lemma species_distances: "map species (distances limited q) = map species limited"
  by (simp add: distances_def)

lemma classifyPoint_Inr:
  assumes "pts \<noteq> []" and "1 \<le> k"
  shows "\<exists>l. classifyPoint engine pts k q = Inr l \<and> l \<in> species ` set pts"
proof -
  let ?nn = "nearestNeighbors engine pts k q"
  have ne: "?nn \<noteq> []" using assms by (simp add: nearestNeighbors_eq_Nil)
  from speciesVote_result[OF ne, of species]
  obtain l where l: "classifyPoint engine pts k q = Inr l" and mem: "l \<in> set (map species ?nn)"
    unfolding classifyPoint_def by blast
  have "set ?nn \<subseteq> set (distances pts q)"
    unfolding nearestNeighbors_def slice0_def Let_def
    using set_take_subset mset_sort_by by (metis set_mset_mset)
  then have "species ` set ?nn \<subseteq> species ` set pts"
    using species_distances[of pts q] by (metis image_mono set_map)
  with l mem show ?thesis by auto
qed

lemma classifyPoint_error: "classifyPoint engine pts k q = Inl e \<Longrightarrow> e = TypeError"
  by (cases "rollup species (nearestNeighbors engine pts k q)")
     (auto simp: classifyPoint_def speciesVote_def)


section \<open>Properties of the binning and of drawVisualization\<close>

lemma maxSpecies_speciesVote: "maxSpecies key d = speciesVote key d"
  by (simp add: maxSpecies_def speciesVote_def)

lemma limitedData_eq_Nil: "1 \<le> k \<Longrightarrow> limitedData data k = [] \<longleftrightarrow> data = []"
  by (simp add: limitedData_def slice0_eq_Nil)

lemma length_limitedData: "0 \<le> k \<Longrightarrow> int (length (limitedData data k)) \<le> k"
  by (simp add: limitedData_def length_slice0)

lemma attr_fill_data: "map fst (fst (attr_fill f ds)) = ds"
  by (induction ds) (auto split: sum.splits prod.splits simp: comp_def)

lemma attr_fill_ok:
  "\<forall>d \<in> set ds. \<exists>v. f d = Inr v \<Longrightarrow>
     snd (attr_fill f ds) = None \<and>
     list_all2 (\<lambda>d e. \<exists>v. f d = Inr v \<and> e = (d, Some v)) ds (fst (attr_fill f ds))"
  by (induction ds) (auto split: sum.splits prod.splits)

lemma assign_mem:
  "(c, ps) \<in> set (assign c0 p bs) \<Longrightarrow>
     (c, ps) \<in> set bs \<or> (c = c0 \<and> (ps = [p] \<or> (\<exists>ps0. (c0, ps0) \<in> set bs \<and> ps = ps0 @ [p])))"
  by (induction bs) (auto split: if_splits)

lemma hexbinGenerator_snoc:
  "hexbinGenerator cellOf (pts @ [p]) =
     (if ToNumber (fst p) = NaN \<or> ToNumber (snd p) = NaN then hexbinGenerator cellOf pts
      else case cellOf p of None \<Rightarrow> hexbinGenerator cellOf pts
           | Some c \<Rightarrow> assign c p (hexbinGenerator cellOf pts))"
  by (simp add: hexbinGenerator_def split: option.splits)

lemma hexbinGenerator_mem:
  "(c, ps) \<in> set (hexbinGenerator cellOf pts) \<Longrightarrow>
     ps \<noteq> [] \<and>
     (\<forall>p \<in> set ps. p \<in> set pts \<and> cellOf p = Some c
                     \<and> ToNumber (fst p) \<noteq> NaN \<and> ToNumber (snd p) \<noteq> NaN)"
proof (induction pts arbitrary: c ps rule: rev_induct)
  case Nil
  then show ?case by (simp add: hexbinGenerator_def)
next
  case (snoc p pts)
  show ?case
  proof (cases "ToNumber (fst p) = NaN \<or> ToNumber (snd p) = NaN \<or> cellOf p = None")
    case True
    with snoc.prems have "(c, ps) \<in> set (hexbinGenerator cellOf pts)"
      by (auto simp: hexbinGenerator_snoc split: if_splits)
    from snoc.IH[OF this] show ?thesis by auto
  next
    case False
    then obtain c0 where c0: "cellOf p = Some c0" by auto
    with False snoc.prems have "(c, ps) \<in> set (assign c0 p (hexbinGenerator cellOf pts))"
      by (simp add: hexbinGenerator_snoc)
    from assign_mem[OF this] show ?thesis
      using snoc.IH c0 False by fastforce
  qed
qed

lemma drawVisualization_density:
  assumes "drawVisualization engine data hexPoints cellOf k (Some old) = (Some s, err)" and "data \<noteq> []"
  shows "set (map fst (densityField s))
           \<subseteq> set (hexbinGenerator cellOf (points (limitedData data k)))"
proof -
  let ?bins = "hexbinGenerator cellOf (points (limitedData data k))"
  have "densityField s = []
          \<or> densityField s = fst (attr_fill (\<lambda>d. maxSpecies pair_species (snd d)) ?bins)"
    using assms by (auto simp: drawVisualization_def Let_def split: prod.splits option.splits)
  then show ?thesis
  proof
    assume "densityField s = []"
    then show ?thesis by simp
  next
    assume "densityField s = fst (attr_fill (\<lambda>d. maxSpecies pair_species (snd d)) ?bins)"
    then have "map fst (densityField s) = ?bins" by (simp only: attr_fill_data)
    then show ?thesis by simp
  qed
qed

lemma drawVisualization_never_raises:
  assumes "1 \<le> k"
  shows "snd (drawVisualization engine data hexPoints cellOf k svgRef) = None"
proof (cases "data = [] \<or> svgRef = None")
  case True
  then show ?thesis by (auto simp: drawVisualization_def)
next
  case False
  let ?ld = "limitedData data k"
  let ?bins = "hexbinGenerator cellOf (points ?ld)"
  let ?g = "\<lambda>d::'a \<times> datum list. maxSpecies pair_species (snd d)"
  have ld: "?ld \<noteq> []" using False assms by (simp add: limitedData_eq_Nil)
  have "\<forall>c \<in> set hexPoints. \<exists>l. classifyPoint engine ?ld k c = Inr l"
    using classifyPoint_Inr[OF ld assms] by blast
  from attr_fill_ok[OF this]
  have dec: "snd (attr_fill (classifyPoint engine ?ld k) hexPoints) = None" by blast
  have "\<forall>d \<in> set ?bins. \<exists>v. ?g d = Inr v"
  proof
    fix d assume "d \<in> set ?bins"
    then have "snd d \<noteq> []"
      using hexbinGenerator_mem[of "fst d" "snd d" cellOf "points ?ld"] by simp
    from speciesVote_result[OF this, of pair_species]
    show "\<exists>v. ?g d = Inr v" by (auto simp: maxSpecies_speciesVote)
  qed
  from attr_fill_ok[OF this] have den: "snd (attr_fill ?g ?bins) = None" by blast
  obtain decision where d1: "attr_fill (classifyPoint engine ?ld k) hexPoints = (decision, None)"
    using dec by (cases "attr_fill (classifyPoint engine ?ld k) hexPoints") simp
  obtain density where d2: "attr_fill ?g ?bins = (density, None)"
    using den by (cases "attr_fill ?g ?bins") simp
  show ?thesis using False by (simp add: drawVisualization_def Let_def d1 d2)
qed

lemma drawVisualization_decision:
  assumes "data \<noteq> []" and "1 \<le> k"
  shows "\<exists>s. drawVisualization engine data hexPoints cellOf k (Some old) = (Some s, None) \<and>
             decisionField s = fst (attr_fill (classifyPoint engine (limitedData data k) k) hexPoints)"
proof -
  let ?r = "drawVisualization engine data hexPoints cellOf k (Some old)"
  have e: "snd ?r = None" by (rule drawVisualization_never_raises[OF assms(2)])
  have "\<exists>s. fst ?r = Some s \<and>
          decisionField s = fst (attr_fill (classifyPoint engine (limitedData data k) k) hexPoints)"
    using assms(1) by (auto simp: drawVisualization_def Let_def split: prod.splits option.splits)
  with e show ?thesis by (metis prod.collapse)
qed

lemma maxSpecies_pair: "ps \<noteq> [] \<Longrightarrow> maxSpecies pair_species ps = Inr Undefined"
proof -
  assume "ps \<noteq> []"
  from speciesVote_result[OF this, of pair_species]
  obtain l where "speciesVote pair_species ps = Inr l" and "l \<in> set (map pair_species ps)"
    by blast
  then show ?thesis by (auto simp: maxSpecies_speciesVote pair_species_def)
qed

lemma classifyPoint_majority:
  assumes "limited \<noteq> []" and "1 \<le> k" and "int (length limited) \<le> k"
  shows "\<exists>l. classifyPoint engine limited k q = Inr l \<and> l \<in> species ` set limited
            \<and> (\<forall>m. count_list (map species limited) m \<le> count_list (map species limited) l)"
proof -
  let ?nn = "nearestNeighbors engine limited k q"
  have ms: "mset ?nn = mset (distances limited q)"
    by (simp add: nearestNeighbors_all[OF assms(3)] mset_sort_by)
  then have lab: "mset (map species ?nn) = mset (map species limited)"
    using species_distances[of limited q] by (metis mset_map)
  have cnt: "count_list (map species ?nn) m = count_list (map species limited) m" for m
    using lab by (metis count_mset)
  have ne: "?nn \<noteq> []" using assms by (simp add: nearestNeighbors_eq_Nil)
  from speciesVote_result[OF ne, of species] obtain l
    where l: "classifyPoint engine limited k q = Inr l"
      and mem: "l \<in> set (map species ?nn)"
      and mx: "\<forall>m. count_list (map species ?nn) m \<le> count_list (map species ?nn) l"
    unfolding classifyPoint_def by blast
  from mem lab have "l \<in> species ` set limited" by (metis set_map set_mset_mset)
  with l mx show ?thesis by (auto simp: cnt)
qed

lemma attr_fill_filled: "(d, Some v) \<in> set (fst (attr_fill f ds)) \<Longrightarrow> f d = Inr v"
  by (induction ds) (auto split: sum.splits prod.splits)

lemma density_labels_undefined:
  assumes "drawVisualization engine data hexPoints cellOf k (Some old) = (Some s, err)"
    and "data \<noteq> []"
    and "((c, ps), Some v) \<in> set (densityField s)"
  shows "v = Undefined"
proof -
  let ?bins = "hexbinGenerator cellOf (points (limitedData data k))"
  let ?g = "\<lambda>d::'a \<times> datum list. maxSpecies pair_species (snd d)"
  have "densityField s = [] \<or> densityField s = fst (attr_fill ?g ?bins)"
    using assms(1,2)
    by (auto simp: drawVisualization_def Let_def split: prod.splits option.splits)
  with assms(3) have mem: "((c, ps), Some v) \<in> set (fst (attr_fill ?g ?bins))" by auto
  from attr_fill_filled[OF this] have v: "maxSpecies pair_species ps = Inr v" by simp
  from mem have "(c, ps) \<in> set (map fst (fst (attr_fill ?g ?bins)))" by force
  then have "(c, ps) \<in> set ?bins" by (simp only: attr_fill_data)
  from hexbinGenerator_mem[OF this] have "ps \<noteq> []" by blast
  from maxSpecies_pair[OF this] v show ?thesis by simp
qed

section \<open>The claims\<close>

text \<open>
  The concrete runs below unfold these definitions. They use small integer coordinates, on
  which double arithmetic is exact, and the engine \<open>keep_order\<close>.
\<close>

lemmas run_defs = classifyPoint_def speciesVote_def nearestNeighbors_def distances_def
  sort_by_def consistent_def slice0_def rollup_def pick_def

lemmas draw_defs = drawVisualization_def limitedData_def points_def hexbinGenerator_def
  maxSpecies_def pair_species_def

subsection \<open>C1: the tie-break of the vote\<close>

text \<open>
  C1 says that among the labels that reach the highest count \<^verbatim>\<open>classifyPoint\<close> returns the
  one met first in the sorted neighbour list. The callback of \<^verbatim>\<open>reduce\<close> keeps the
  accumulator only when its count is strictly larger, so a later entry with an equal count
  replaces it. With one \<open>A\<close> at distance 0 and one \<open>B\<close> at distance 1 and \<open>k = 2\<close> the
  neighbour list reads \<open>A, B\<close>, both have one vote, and the result is \<open>B\<close>.
\<close>

theorem classifyPoint_first_label_counterexample:
  "map species (nearestNeighbors keep_order
     [\<lparr>species = Str ''A'', bill_length_mm = Number (Num 0), bill_depth_mm = Number (Num 0)\<rparr>,
      \<lparr>species = Str ''B'', bill_length_mm = Number (Num 1), bill_depth_mm = Number (Num 0)\<rparr>]
     2 (Num 0, Num 0))
     = [Str ''A'', Str ''B'']
   \<and> classifyPoint keep_order
     [\<lparr>species = Str ''A'', bill_length_mm = Number (Num 0), bill_depth_mm = Number (Num 0)\<rparr>,
      \<lparr>species = Str ''B'', bill_length_mm = Number (Num 1), bill_depth_mm = Number (Num 0)\<rparr>]
     2 (Num 0, Num 0)
     = Inr (Str ''B'')"
  by (simp add: run_defs)

text \<open>
  C1, amended: when \<^verbatim>\<open>classifyPoint\<close> returns a label, that label occurs among the
  \<open>k\<close> nearest neighbours, no label has more votes, and every other label with as many votes
  occurs in the sorted neighbour list before the first occurrence of the returned one. The
  returned label is the tied label whose first occurrence comes last.
\<close>

theorem classifyPoint_tie_break:
  assumes "classifyPoint engine limited k q = Inr l"
  shows "let labels = map species (nearestNeighbors engine limited k q) in
           l \<in> set labels \<and>
           (\<forall>l' \<in> set labels.
              count_list labels l' \<le> count_list labels l \<and>
              (count_list labels l' = count_list labels l \<longrightarrow>
                 l' = l \<or> l' \<in> set (takeWhile (\<lambda>y. y \<noteq> l) labels)))"
proof -
  let ?nn = "nearestNeighbors engine limited k q"
  have "?nn \<noteq> []"
    using assms by (auto simp: classifyPoint_def speciesVote_Nil)
  from speciesVote_result[OF this, of species] assms
  show ?thesis unfolding classifyPoint_def Let_def by auto
qed

theorem classifyPoint_tie_break_witness:
  "classifyPoint keep_order
     [\<lparr>species = Str ''A'', bill_length_mm = Number (Num 0), bill_depth_mm = Number (Num 0)\<rparr>,
      \<lparr>species = Str ''B'', bill_length_mm = Number (Num 3), bill_depth_mm = Number (Num 4)\<rparr>,
      \<lparr>species = Str ''C'', bill_length_mm = Number (Num 6), bill_depth_mm = Number (Num 8)\<rparr>]
     3 (Num 0, Num 0)
     = Inr (Str ''C'')
   \<and> map species (nearestNeighbors keep_order
     [\<lparr>species = Str ''A'', bill_length_mm = Number (Num 0), bill_depth_mm = Number (Num 0)\<rparr>,
      \<lparr>species = Str ''B'', bill_length_mm = Number (Num 3), bill_depth_mm = Number (Num 4)\<rparr>,
      \<lparr>species = Str ''C'', bill_length_mm = Number (Num 6), bill_depth_mm = Number (Num 8)\<rparr>]
     3 (Num 0, Num 0))
     = [Str ''A'', Str ''B'', Str ''C'']
   \<and> count_list [Str ''A'', Str ''B'', Str ''C''] (Str ''A'')
       = count_list [Str ''A'', Str ''B'', Str ''C''] (Str ''C'')
   \<and> Str ''A'' \<in> set (takeWhile (\<lambda>y. y \<noteq> Str ''C'') [Str ''A'', Str ''B'', Str ''C''])"
proof -
  let ?pts = "[\<lparr>species = Str ''A'', bill_length_mm = Number (Num 0), bill_depth_mm = Number (Num 0)\<rparr>,
      \<lparr>species = Str ''B'', bill_length_mm = Number (Num 3), bill_depth_mm = Number (Num 4)\<rparr>,
      \<lparr>species = Str ''C'', bill_length_mm = Number (Num 6), bill_depth_mm = Number (Num 8)\<rparr>]"
  have c: "classifyPoint keep_order ?pts 3 (Num 0, Num 0) = Inr (Str ''C'')"
    by (simp add: run_defs)
  have n: "map species (nearestNeighbors keep_order ?pts 3 (Num 0, Num 0))
             = [Str ''A'', Str ''B'', Str ''C'']"
    by (simp add: run_defs)
  have "Str ''A'' \<in> set [Str ''A'', Str ''B'', Str ''C'']" by simp
  with classifyPoint_tie_break[OF c] have
    "count_list [Str ''A'', Str ''B'', Str ''C''] (Str ''A'')
       = count_list [Str ''A'', Str ''B'', Str ''C''] (Str ''C'') \<longrightarrow>
       Str ''A'' = Str ''C''
       \<or> Str ''A'' \<in> set (takeWhile (\<lambda>y. y \<noteq> Str ''C'') [Str ''A'', Str ''B'', Str ''C''])"
    unfolding n Let_def by blast
  moreover have "count_list [Str ''A'', Str ''B'', Str ''C''] (Str ''A'')
       = count_list [Str ''A'', Str ''B'', Str ''C''] (Str ''C'')"
    by simp
  moreover have "Str ''A'' \<noteq> Str ''C''" by simp
  ultimately show ?thesis using c n by blast
qed

subsection \<open>C2: the votes do not depend on the query\<close>

text \<open>
  C2: \<^verbatim>\<open>drawVisualization\<close> calls \<^verbatim>\<open>classifyPoint\<close> on \<open>limitedData data k\<close> with the same
  \<open>k\<close>. For \<open>k \<ge> 1\<close> and every query the neighbour list is then a rearrangement of the
  whole distance list of the truncated data; the tally maps every species to the same count
  for any two queries; and two labels predicted for two queries have the same number of
  votes, which is the maximum: the prediction can change with the query only among tied
  labels.
\<close>

theorem same_votes_for_all_queries:
  assumes "1 \<le> k"
  shows "mset (nearestNeighbors engine (limitedData data k) k q)
           = mset (distances (limitedData data k) q)
     \<and> map_of (rollup species (nearestNeighbors engine (limitedData data k) k q))
         = map_of (rollup species (nearestNeighbors engine (limitedData data k) k q'))
     \<and> (classifyPoint engine (limitedData data k) k q = Inr l \<and>
        classifyPoint engine (limitedData data k) k q' = Inr l' \<longrightarrow>
          count_list (map species (limitedData data k)) l
            = count_list (map species (limitedData data k)) l'
          \<and> (\<forall>m. count_list (map species (limitedData data k)) m
                  \<le> count_list (map species (limitedData data k)) l))"
proof -
  let ?ld = "limitedData data k"
  have len: "int (length ?ld) \<le> k" using assms by (simp add: length_limitedData)
  have ms: "mset (nearestNeighbors engine ?ld k p) = mset (distances ?ld p)" for p
    by (simp add: nearestNeighbors_all[OF len] mset_sort_by)
  have lab: "mset (map species (nearestNeighbors engine ?ld k p)) = mset (map species ?ld)" for p
    using ms[of p] species_distances[of ?ld p] by (metis mset_map)
  have cnt: "count_list (map species (nearestNeighbors engine ?ld k p)) m
               = count_list (map species ?ld) m" for p m
    using lab[of p] by (metis count_mset)
  have st: "species ` set (nearestNeighbors engine ?ld k p) = species ` set ?ld" for p
    using lab[of p] by (metis set_map set_mset_mset)
  have tally: "map_of (rollup species (nearestNeighbors engine ?ld k q))
         = map_of (rollup species (nearestNeighbors engine ?ld k q'))"
    by (rule ext) (simp add: map_of_rollup cnt st)
  have mx: "\<forall>m. count_list (map species ?ld) m \<le> count_list (map species ?ld) r"
    if "classifyPoint engine ?ld k p = Inr r" for p r
  proof -
    have "nearestNeighbors engine ?ld k p \<noteq> []"
      using that by (auto simp: classifyPoint_def speciesVote_Nil)
    from speciesVote_result[OF this, of species] that show ?thesis
      by (auto simp: classifyPoint_def cnt)
  qed
  have "count_list (map species ?ld) l = count_list (map species ?ld) l'
          \<and> (\<forall>m. count_list (map species ?ld) m \<le> count_list (map species ?ld) l)"
    if "classifyPoint engine ?ld k q = Inr l" "classifyPoint engine ?ld k q' = Inr l'"
    using mx[OF that(1)] mx[OF that(2)] by (simp add: le_antisym)
  with ms[of q] tally show ?thesis by blast
qed

theorem same_votes_for_all_queries_witness:
  "(1::int) \<le> 2 \<and>
   (mset (nearestNeighbors keep_order (limitedData
       [\<lparr>species = Str ''A'', bill_length_mm = Number (Num 0), bill_depth_mm = Number (Num 0)\<rparr>,
        \<lparr>species = Str ''B'', bill_length_mm = Number (Num 1), bill_depth_mm = Number (Num 0)\<rparr>] 2)
         2 (Num 0, Num 0))
      = mset (distances (limitedData
       [\<lparr>species = Str ''A'', bill_length_mm = Number (Num 0), bill_depth_mm = Number (Num 0)\<rparr>,
        \<lparr>species = Str ''B'', bill_length_mm = Number (Num 1), bill_depth_mm = Number (Num 0)\<rparr>] 2)
         (Num 0, Num 0))
    \<and> map_of (rollup species (nearestNeighbors keep_order (limitedData
       [\<lparr>species = Str ''A'', bill_length_mm = Number (Num 0), bill_depth_mm = Number (Num 0)\<rparr>,
        \<lparr>species = Str ''B'', bill_length_mm = Number (Num 1), bill_depth_mm = Number (Num 0)\<rparr>] 2)
         2 (Num 0, Num 0)))
      = map_of (rollup species (nearestNeighbors keep_order (limitedData
       [\<lparr>species = Str ''A'', bill_length_mm = Number (Num 0), bill_depth_mm = Number (Num 0)\<rparr>,
        \<lparr>species = Str ''B'', bill_length_mm = Number (Num 1), bill_depth_mm = Number (Num 0)\<rparr>] 2)
         2 (Num 1, Num 0)))
    \<and> classifyPoint keep_order (limitedData
       [\<lparr>species = Str ''A'', bill_length_mm = Number (Num 0), bill_depth_mm = Number (Num 0)\<rparr>,
        \<lparr>species = Str ''B'', bill_length_mm = Number (Num 1), bill_depth_mm = Number (Num 0)\<rparr>] 2)
         2 (Num 0, Num 0)
        = Inr (Str ''B'')
    \<and> classifyPoint keep_order (limitedData
       [\<lparr>species = Str ''A'', bill_length_mm = Number (Num 0), bill_depth_mm = Number (Num 0)\<rparr>,
        \<lparr>species = Str ''B'', bill_length_mm = Number (Num 1), bill_depth_mm = Number (Num 0)\<rparr>] 2)
         2 (Num 1, Num 0)
        = Inr (Str ''A'')
    \<and> count_list (map species (limitedData
       [\<lparr>species = Str ''A'', bill_length_mm = Number (Num 0), bill_depth_mm = Number (Num 0)\<rparr>,
        \<lparr>species = Str ''B'', bill_length_mm = Number (Num 1), bill_depth_mm = Number (Num 0)\<rparr>] 2))
         (Str ''B'')
      = count_list (map species (limitedData
       [\<lparr>species = Str ''A'', bill_length_mm = Number (Num 0), bill_depth_mm = Number (Num 0)\<rparr>,
        \<lparr>species = Str ''B'', bill_length_mm = Number (Num 1), bill_depth_mm = Number (Num 0)\<rparr>] 2))
         (Str ''A''))"
proof -
  let ?data = "[\<lparr>species = Str ''A'', bill_length_mm = Number (Num 0), bill_depth_mm = Number (Num 0)\<rparr>,
        \<lparr>species = Str ''B'', bill_length_mm = Number (Num 1), bill_depth_mm = Number (Num 0)\<rparr>]"
  have k: "(1::int) \<le> 2" by simp
  have a: "classifyPoint keep_order (limitedData ?data 2) 2 (Num 0, Num 0) = Inr (Str ''B'')"
    by (simp add: limitedData_def run_defs)
  have b: "classifyPoint keep_order (limitedData ?data 2) 2 (Num 1, Num 0) = Inr (Str ''A'')"
    by (simp add: limitedData_def run_defs)
  from same_votes_for_all_queries
         [OF k, of keep_order ?data "(Num 0, Num 0)" "(Num 1, Num 0)" "Str ''B''" "Str ''A''"] k a b
  show ?thesis by blast
qed

subsection \<open>C3: the empty point set\<close>

text \<open>
  C3 says that on an empty point set the classifier signals \<open>InsufficientData\<close>, which
  reaches the orchestration layer and makes it skip the rebuild. With \<open>k\<close> between 1 and 100
  the point set is empty only when no data is loaded. On that input \<^verbatim>\<open>drawVisualization\<close>
  returns at line 36: the drawing is left as it was, but no condition is signalled; the
  call ends without any exception, \<open>InsufficientData\<close> or other.
\<close>

theorem empty_data_no_signal_counterexample:
  "drawVisualization keep_order [] [(Num 0, Num 0)] (\<lambda>p. Some (fst p)) 1
     (Some \<lparr>decisionField = [((Num 0, Num 0), Some (Str ''B''))], densityField = [],
            caption = Some 9\<rparr>)
     = (Some \<lparr>decisionField = [((Num 0, Num 0), Some (Str ''B''))], densityField = [],
              caption = Some 9\<rparr>, None)
   \<and> snd (drawVisualization keep_order [] [(Num 0, Num 0)] (\<lambda>p. Some (fst p)) 1
     (Some \<lparr>decisionField = [((Num 0, Num 0), Some (Str ''B''))], densityField = [],
            caption = Some 9\<rparr>)) \<noteq> Some InsufficientData"
  by (simp add: drawVisualization_def)

text \<open>
  C3, amended: the empty point set is handled by the guard of line 36 alone. When no data
  is loaded \<^verbatim>\<open>drawVisualization\<close> skips the rebuild, leaves the prior drawing unchanged and
  raises nothing. For \<open>k \<ge> 1\<close> no call of \<^verbatim>\<open>drawVisualization\<close> raises an exception, and
  when data is loaded the point set handed to \<^verbatim>\<open>classifyPoint\<close> is not empty.
\<close>

theorem empty_data_skips_rebuild:
  "drawVisualization engine [] hexPoints cellOf k svgRef = (svgRef, None)
   \<and> (1 \<le> k \<longrightarrow>
        snd (drawVisualization engine data hexPoints cellOf k svgRef) = None
        \<and> (data \<noteq> [] \<longrightarrow> limitedData data k \<noteq> []))"
  using drawVisualization_never_raises[of k engine data hexPoints cellOf svgRef]
  by (simp add: drawVisualization_def limitedData_eq_Nil)

theorem empty_data_skips_rebuild_witness:
  "(1::int) \<le> 1
   \<and> [\<lparr>species = Str ''A'', bill_length_mm = Number (Num 0), bill_depth_mm = Number (Num 0)\<rparr>] \<noteq> []
   \<and> snd (drawVisualization keep_order
        [\<lparr>species = Str ''A'', bill_length_mm = Number (Num 0), bill_depth_mm = Number (Num 0)\<rparr>]
        [(Num 0, Num 0)] (\<lambda>p. Some (fst p)) 1
        (Some \<lparr>decisionField = [], densityField = [], caption = None\<rparr>)) = None
   \<and> limitedData
        [\<lparr>species = Str ''A'', bill_length_mm = Number (Num 0), bill_depth_mm = Number (Num 0)\<rparr>] 1
       \<noteq> []"
  using empty_data_skips_rebuild
          [of keep_order "[(Num 0, Num 0)]" "\<lambda>p. Some (fst p)" 1
              "Some \<lparr>decisionField = [], densityField = [], caption = None\<rparr>"
              "[\<lparr>species = Str ''A'', bill_length_mm = Number (Num 0), bill_depth_mm = Number (Num 0)\<rparr>]"]
  by simp

subsection \<open>C4: points with a NaN coordinate\<close>




subsection \<open>C5: a large k uses all points\<close>

text \<open>
  C5: for every query and every non-empty point set, if \<open>k\<close> is at least the number of
  points then \<^verbatim>\<open>classifyPoint\<close> does not fail: it returns a label, the same label as with
  \<open>k\<close> equal to the number of points, and the neighbours that vote are a rearrangement of
  all available points.
\<close>

theorem classifyPoint_clamp:
  assumes "pts \<noteq> []" and "int (length pts) \<le> k"
  shows "\<exists>l. classifyPoint engine pts k q = Inr l
            \<and> classifyPoint engine pts (int (length pts)) q = Inr l
            \<and> mset (nearestNeighbors engine pts k q) = mset (distances pts q)"
proof -
  from assms have k: "1 \<le> k" by (cases pts) auto
  from classifyPoint_Inr[OF assms(1) k] obtain l
    where l: "classifyPoint engine pts k q = Inr l" by blast
  have eq: "nearestNeighbors engine pts k q = nearestNeighbors engine pts (int (length pts)) q"
    by (simp add: nearestNeighbors_all assms(2))
  then have "classifyPoint engine pts (int (length pts)) q = Inr l"
    using l by (simp add: classifyPoint_def)
  moreover have "mset (nearestNeighbors engine pts k q) = mset (distances pts q)"
    by (simp add: nearestNeighbors_all[OF assms(2)] mset_sort_by)
  ultimately show ?thesis using l by blast
qed

theorem classifyPoint_clamp_witness:
  "[\<lparr>species = Str ''A'', bill_length_mm = Number (Num 0), bill_depth_mm = Number (Num 0)\<rparr>,
    \<lparr>species = Str ''B'', bill_length_mm = Number (Num 1), bill_depth_mm = Number (Num 0)\<rparr>,
    \<lparr>species = Str ''A'', bill_length_mm = Number (Num 2), bill_depth_mm = Number (Num 0)\<rparr>] \<noteq> []
   \<and> int (length
       [\<lparr>species = Str ''A'', bill_length_mm = Number (Num 0), bill_depth_mm = Number (Num 0)\<rparr>,
        \<lparr>species = Str ''B'', bill_length_mm = Number (Num 1), bill_depth_mm = Number (Num 0)\<rparr>,
        \<lparr>species = Str ''A'', bill_length_mm = Number (Num 2), bill_depth_mm = Number (Num 0)\<rparr>]) \<le> 7
   \<and> classifyPoint keep_order
       [\<lparr>species = Str ''A'', bill_length_mm = Number (Num 0), bill_depth_mm = Number (Num 0)\<rparr>,
        \<lparr>species = Str ''B'', bill_length_mm = Number (Num 1), bill_depth_mm = Number (Num 0)\<rparr>,
        \<lparr>species = Str ''A'', bill_length_mm = Number (Num 2), bill_depth_mm = Number (Num 0)\<rparr>]
       7 (Num 1, Num 0) = Inr (Str ''A'')
   \<and> classifyPoint keep_order
       [\<lparr>species = Str ''A'', bill_length_mm = Number (Num 0), bill_depth_mm = Number (Num 0)\<rparr>,
        \<lparr>species = Str ''B'', bill_length_mm = Number (Num 1), bill_depth_mm = Number (Num 0)\<rparr>,
        \<lparr>species = Str ''A'', bill_length_mm = Number (Num 2), bill_depth_mm = Number (Num 0)\<rparr>]
       3 (Num 1, Num 0) = Inr (Str ''A'')
   \<and> classifyPoint keep_order
       [\<lparr>species = Str ''A'', bill_length_mm = Number (Num 0), bill_depth_mm = Number (Num 0)\<rparr>,
        \<lparr>species = Str ''B'', bill_length_mm = Number (Num 1), bill_depth_mm = Number (Num 0)\<rparr>,
        \<lparr>species = Str ''A'', bill_length_mm = Number (Num 2), bill_depth_mm = Number (Num 0)\<rparr>]
       1 (Num 1, Num 0) = Inr (Str ''B'')"
proof -
  let ?pts = "[\<lparr>species = Str ''A'', bill_length_mm = Number (Num 0), bill_depth_mm = Number (Num 0)\<rparr>,
        \<lparr>species = Str ''B'', bill_length_mm = Number (Num 1), bill_depth_mm = Number (Num 0)\<rparr>,
        \<lparr>species = Str ''A'', bill_length_mm = Number (Num 2), bill_depth_mm = Number (Num 0)\<rparr>]"
  have h1: "?pts \<noteq> []" by simp
  have h2: "int (length ?pts) \<le> 7" by simp
  have three: "classifyPoint keep_order ?pts 3 (Num 1, Num 0) = Inr (Str ''A'')"
    by (simp add: run_defs)
  have one: "classifyPoint keep_order ?pts 1 (Num 1, Num 0) = Inr (Str ''B'')"
    by (simp add: run_defs)
  from classifyPoint_clamp[OF h1 h2, where engine = keep_order and q = "(Num 1, Num 0)"] three
  have "classifyPoint keep_order ?pts 7 (Num 1, Num 0) = Inr (Str ''A'')" by simp
  with h1 h2 three one show ?thesis by blast
qed

subsection \<open>C6: a label is returned on a non-empty point set\<close>

text \<open>
  C6: for every point set with at least one point and every \<open>k \<ge> 1\<close>, \<^verbatim>\<open>classifyPoint\<close>
  returns a label, which is the species of one of the points; it raises nothing, in
  particular not \<open>InsufficientData\<close>.
\<close>

theorem classifyPoint_returns_label:
  assumes "pts \<noteq> []" and "1 \<le> k"
  shows "(\<exists>l. classifyPoint engine pts k q = Inr l \<and> l \<in> species ` set pts)
         \<and> classifyPoint engine pts k q \<noteq> Inl InsufficientData"
proof -
  from classifyPoint_Inr[OF assms] obtain l
    where "classifyPoint engine pts k q = Inr l" and "l \<in> species ` set pts" by blast
  then show ?thesis by auto
qed

theorem classifyPoint_returns_label_witness:
  "[\<lparr>species = Str ''A'', bill_length_mm = Number (Num 0), bill_depth_mm = Number (Num 0)\<rparr>] \<noteq> []
   \<and> (1::int) \<le> 1
   \<and> (\<exists>l. classifyPoint keep_order
             [\<lparr>species = Str ''A'', bill_length_mm = Number (Num 0), bill_depth_mm = Number (Num 0)\<rparr>]
             1 (Num 2, Num 0) = Inr l
           \<and> l \<in> species ` set
             [\<lparr>species = Str ''A'', bill_length_mm = Number (Num 0), bill_depth_mm = Number (Num 0)\<rparr>])
   \<and> classifyPoint keep_order
        [\<lparr>species = Str ''A'', bill_length_mm = Number (Num 0), bill_depth_mm = Number (Num 0)\<rparr>]
        1 (Num 2, Num 0) \<noteq> Inl InsufficientData"
  using classifyPoint_returns_label
          [where pts = "[\<lparr>species = Str ''A'', bill_length_mm = Number (Num 0),
                          bill_depth_mm = Number (Num 0)\<rparr>]"
             and k = 1 and engine = keep_order and q = "(Num 2, Num 0)"]
  by simp

subsection \<open>C7: the decision field classifies against all truncated points\<close>

text \<open>
  C7: with loaded data and \<open>k \<ge> 1\<close> the rebuild completes without an exception, and
  the decision field has one entry per hexagon centre, in order. Its label is the result of
  \<^verbatim>\<open>classifyPoint\<close> for that centre on the whole of \<open>limitedData data k\<close>, and it is a
  majority label of all truncated points: it is the species of one of them, and no species
  occurs more often among all of them. The binning \<open>cellOf\<close> plays no part. In the example
  the point nearest to the centre has species \<open>A\<close> and the label is \<open>B\<close>, the species of the
  two points farther away.
\<close>

theorem decision_field_global:
  assumes "data \<noteq> []" and "1 \<le> k"
  shows "\<exists>s. drawVisualization engine data hexPoints cellOf k (Some old) = (Some s, None) \<and>
             list_all2
               (\<lambda>c e. \<exists>l. e = (c, Some l)
                    \<and> classifyPoint engine (limitedData data k) k c = Inr l
                    \<and> l \<in> species ` set (limitedData data k)
                    \<and> (\<forall>m. count_list (map species (limitedData data k)) m
                              \<le> count_list (map species (limitedData data k)) l))
               hexPoints (decisionField s)"
proof -
  let ?ld = "limitedData data k"
  let ?P = "\<lambda>c l. classifyPoint engine ?ld k c = Inr l \<and> l \<in> species ` set ?ld
                 \<and> (\<forall>m. count_list (map species ?ld) m \<le> count_list (map species ?ld) l)"
  have ld: "?ld \<noteq> []" using assms by (simp add: limitedData_eq_Nil)
  have len: "int (length ?ld) \<le> k" using assms(2) by (simp add: length_limitedData)
  have maj: "\<exists>l. ?P c l" for c
    using classifyPoint_majority[OF ld assms(2) len, of engine c] by blast
  then have "\<forall>c \<in> set hexPoints. \<exists>l. classifyPoint engine ?ld k c = Inr l" by blast
  from attr_fill_ok[OF this]
  have all: "list_all2 (\<lambda>c e. \<exists>l. classifyPoint engine ?ld k c = Inr l \<and> e = (c, Some l))
               hexPoints (fst (attr_fill (classifyPoint engine ?ld k) hexPoints))"
    by blast
  have "list_all2 (\<lambda>c e. \<exists>l. e = (c, Some l) \<and> ?P c l)
          hexPoints (fst (attr_fill (classifyPoint engine ?ld k) hexPoints))"
  proof (rule list_all2_mono[OF all])
    fix c e
    assume "\<exists>l. classifyPoint engine ?ld k c = Inr l \<and> e = (c, Some l)"
    then obtain l where l: "classifyPoint engine ?ld k c = Inr l" and e: "e = (c, Some l)"
      by blast
    from maj[of c] l have "?P c l" by auto
    with e show "\<exists>l. e = (c, Some l) \<and> ?P c l" by blast
  qed
  with drawVisualization_decision[OF assms, of engine hexPoints cellOf old]
  show ?thesis by auto
qed

theorem decision_field_global_witness:
  "[\<lparr>species = Str ''A'', bill_length_mm = Number (Num 0), bill_depth_mm = Number (Num 0)\<rparr>,
    \<lparr>species = Str ''B'', bill_length_mm = Number (Num 3), bill_depth_mm = Number (Num 4)\<rparr>,
    \<lparr>species = Str ''B'', bill_length_mm = Number (Num 6), bill_depth_mm = Number (Num 8)\<rparr>] \<noteq> []
   \<and> (1::int) \<le> 3
   \<and> drawVisualization keep_order
        [\<lparr>species = Str ''A'', bill_length_mm = Number (Num 0), bill_depth_mm = Number (Num 0)\<rparr>,
         \<lparr>species = Str ''B'', bill_length_mm = Number (Num 3), bill_depth_mm = Number (Num 4)\<rparr>,
         \<lparr>species = Str ''B'', bill_length_mm = Number (Num 6), bill_depth_mm = Number (Num 8)\<rparr>]
        [(Num 0, Num 0)] (\<lambda>p. Some (fst p)) 3
        (Some \<lparr>decisionField = [], densityField = [], caption = None\<rparr>)
       = (Some \<lparr>decisionField = [((Num 0, Num 0), Some (Str ''B''))],
                densityField =
                  [((Number (Num 0), [(Number (Num 0), Number (Num 0))]), Some Undefined),
                   ((Number (Num 3), [(Number (Num 3), Number (Num 4))]), Some Undefined),
                   ((Number (Num 6), [(Number (Num 6), Number (Num 8))]), Some Undefined)],
                caption = Some 3\<rparr>, None)
   \<and> count_list (map species (limitedData
        [\<lparr>species = Str ''A'', bill_length_mm = Number (Num 0), bill_depth_mm = Number (Num 0)\<rparr>,
         \<lparr>species = Str ''B'', bill_length_mm = Number (Num 3), bill_depth_mm = Number (Num 4)\<rparr>,
         \<lparr>species = Str ''B'', bill_length_mm = Number (Num 6), bill_depth_mm = Number (Num 8)\<rparr>] 3))
        (Str ''A'')
      \<le> count_list (map species (limitedData
        [\<lparr>species = Str ''A'', bill_length_mm = Number (Num 0), bill_depth_mm = Number (Num 0)\<rparr>,
         \<lparr>species = Str ''B'', bill_length_mm = Number (Num 3), bill_depth_mm = Number (Num 4)\<rparr>,
         \<lparr>species = Str ''B'', bill_length_mm = Number (Num 6), bill_depth_mm = Number (Num 8)\<rparr>] 3))
        (Str ''B'')"
proof -
  let ?data = "[\<lparr>species = Str ''A'', bill_length_mm = Number (Num 0), bill_depth_mm = Number (Num 0)\<rparr>,
         \<lparr>species = Str ''B'', bill_length_mm = Number (Num 3), bill_depth_mm = Number (Num 4)\<rparr>,
         \<lparr>species = Str ''B'', bill_length_mm = Number (Num 6), bill_depth_mm = Number (Num 8)\<rparr>]"
  let ?s = "\<lparr>decisionField = [((Num 0, Num 0), Some (Str ''B''))],
                densityField =
                  [((Number (Num 0), [(Number (Num 0), Number (Num 0))]), Some Undefined),
                   ((Number (Num 3), [(Number (Num 3), Number (Num 4))]), Some Undefined),
                   ((Number (Num 6), [(Number (Num 6), Number (Num 8))]), Some Undefined)],
                caption = Some (3::int)\<rparr>"
  have d: "?data \<noteq> []" by simp
  have k: "(1::int) \<le> 3" by simp
  have run: "drawVisualization keep_order ?data [(Num 0, Num 0)] (\<lambda>p. Some (fst p)) 3
        (Some \<lparr>decisionField = [], densityField = [], caption = None\<rparr>) = (Some ?s, None)"
    by (simp add: draw_defs run_defs)
  from decision_field_global[OF d k, where engine = keep_order and hexPoints = "[(Num 0, Num 0)]"
         and cellOf = "\<lambda>p. Some (fst p)"
         and old = "\<lparr>decisionField = [], densityField = [], caption = None\<rparr>"]
  have "list_all2
               (\<lambda>c e. \<exists>l. e = (c, Some l)
                    \<and> classifyPoint keep_order (limitedData ?data 3) 3 c = Inr l
                    \<and> l \<in> species ` set (limitedData ?data 3)
                    \<and> (\<forall>m. count_list (map species (limitedData ?data 3)) m
                              \<le> count_list (map species (limitedData ?data 3)) l))
               [(Num 0, Num 0)] (decisionField ?s)"
    unfolding run by simp
  then have "\<forall>m. count_list (map species (limitedData ?data 3)) m
                   \<le> count_list (map species (limitedData ?data 3)) (Str ''B'')"
    by fastforce
  then have "count_list (map species (limitedData ?data 3)) (Str ''A'')
               \<le> count_list (map species (limitedData ?data 3)) (Str ''B'')" by blast
  with d k run show ?thesis by blast
qed

subsection \<open>C9: the majority label of a bin\<close>

text \<open>
  C9 says that the density field takes the majority label of the points binned in a cell,
  by the tally and argmax of the classifier. Lines 101 and 102 repeat lines 80 and 81, but
  they run on the pairs built at line 65, which carry no species: every key of the tally is
  \<^verbatim>\<open>undefined\<close>. With two points of species \<open>A\<close> and one of species \<open>B\<close> in one cell, the
  label of the cell is \<^verbatim>\<open>undefined\<close>, where the vote of the classifier over the same three
  points is \<open>A\<close>.
\<close>

theorem density_label_undefined:
  "drawVisualization keep_order
     [\<lparr>species = Str ''A'', bill_length_mm = Number (Num 0), bill_depth_mm = Number (Num 0)\<rparr>,
      \<lparr>species = Str ''A'', bill_length_mm = Number (Num 1), bill_depth_mm = Number (Num 0)\<rparr>,
      \<lparr>species = Str ''B'', bill_length_mm = Number (Num 0), bill_depth_mm = Number (Num 1)\<rparr>]
     [(Num 0, Num 0)] (\<lambda>p. Some (0::nat)) 3
     (Some \<lparr>decisionField = [], densityField = [], caption = None\<rparr>)
    = (Some \<lparr>decisionField = [((Num 0, Num 0), Some (Str ''A''))],
             densityField =
               [((0, [(Number (Num 0), Number (Num 0)), (Number (Num 1), Number (Num 0)),
                      (Number (Num 0), Number (Num 1))]), Some Undefined)],
             caption = Some 3\<rparr>, None)
   \<and> speciesVote species
     [\<lparr>species = Str ''A'', bill_length_mm = Number (Num 0), bill_depth_mm = Number (Num 0)\<rparr>,
      \<lparr>species = Str ''A'', bill_length_mm = Number (Num 1), bill_depth_mm = Number (Num 0)\<rparr>,
      \<lparr>species = Str ''B'', bill_length_mm = Number (Num 0), bill_depth_mm = Number (Num 1)\<rparr>]
    = Inr (Str ''A'')"
  by (simp add: draw_defs run_defs)

subsection \<open>C10: density entries exist only for occupied cells\<close>

text \<open>
  C10: every entry of the density field drawn by \<^verbatim>\<open>drawVisualization\<close> belongs to a bin
  that is non-empty and holds only truncated points assigned to the entry's cell. A cell
  without an assigned point therefore has no entry.
\<close>

theorem density_only_occupied_cells:
  assumes "drawVisualization engine data hexPoints cellOf k (Some old) = (Some s, err)"
    and "data \<noteq> []"
    and "((c, ps), fill) \<in> set (densityField s)"
  shows "ps \<noteq> [] \<and> (\<forall>p \<in> set ps. p \<in> set (points (limitedData data k)) \<and> cellOf p = Some c)"
proof -
  from assms(3) have "(c, ps) \<in> set (map fst (densityField s))" by force
  with drawVisualization_density[OF assms(1,2)]
  have "(c, ps) \<in> set (hexbinGenerator cellOf (points (limitedData data k)))" by blast
  from hexbinGenerator_mem[OF this] show ?thesis by blast
qed

theorem density_only_occupied_cells_witness:
  "drawVisualization keep_order
      [\<lparr>species = Str ''A'', bill_length_mm = Number (Num 0), bill_depth_mm = Number (Num 0)\<rparr>,
       \<lparr>species = Str ''B'', bill_length_mm = Number (Num 3), bill_depth_mm = Number (Num 4)\<rparr>]
      [(Num 0, Num 0)] (\<lambda>p. Some (fst p)) 1
      (Some \<lparr>decisionField = [], densityField = [], caption = None\<rparr>)
     = (Some \<lparr>decisionField = [((Num 0, Num 0), Some (Str ''A''))],
              densityField = [((Number (Num 0), [(Number (Num 0), Number (Num 0))]), Some Undefined)],
              caption = Some 1\<rparr>, None)
   \<and> [\<lparr>species = Str ''A'', bill_length_mm = Number (Num 0), bill_depth_mm = Number (Num 0)\<rparr>,
       \<lparr>species = Str ''B'', bill_length_mm = Number (Num 3), bill_depth_mm = Number (Num 4)\<rparr>] \<noteq> []
   \<and> ((Number (Num 0), [(Number (Num 0), Number (Num 0))]), Some Undefined)
        \<in> set (densityField \<lparr>decisionField = [((Num 0, Num 0), Some (Str ''A''))],
              densityField = [((Number (Num 0), [(Number (Num 0), Number (Num 0))]), Some Undefined)],
              caption = Some 1\<rparr>)
   \<and> [(Number (Num 0), Number (Num 0))] \<noteq> []
   \<and> (Number (Num 0), Number (Num 0)) \<in> set (points (limitedData
            [\<lparr>species = Str ''A'', bill_length_mm = Number (Num 0), bill_depth_mm = Number (Num 0)\<rparr>,
             \<lparr>species = Str ''B'', bill_length_mm = Number (Num 3), bill_depth_mm = Number (Num 4)\<rparr>] 1))
   \<and> Some (fst (Number (Num 0), Number (Num 0))) = Some (Number (Num 0))"
proof -
  let ?data = "[\<lparr>species = Str ''A'', bill_length_mm = Number (Num 0), bill_depth_mm = Number (Num 0)\<rparr>,
       \<lparr>species = Str ''B'', bill_length_mm = Number (Num 3), bill_depth_mm = Number (Num 4)\<rparr>]"
  let ?s = "\<lparr>decisionField = [((Num 0, Num 0), Some (Str ''A''))],
              densityField = [((Number (Num 0), [(Number (Num 0), Number (Num 0))]), Some Undefined)],
              caption = Some (1::int)\<rparr>"
  have run: "drawVisualization keep_order ?data [(Num 0, Num 0)] (\<lambda>p. Some (fst p)) 1
      (Some \<lparr>decisionField = [], densityField = [], caption = None\<rparr>) = (Some ?s, None)"
    by (simp add: draw_defs run_defs)
  have d: "?data \<noteq> []" by simp
  have m: "((Number (Num 0), [(Number (Num 0), Number (Num 0))]), Some Undefined)
             \<in> set (densityField ?s)" by simp
  from density_only_occupied_cells[OF run d m]
  have "(Number (Num 0), Number (Num 0)) \<in> set (points (limitedData ?data 1))
        \<and> Some (fst (Number (Num 0), Number (Num 0))) = Some (Number (Num 0))" by simp
  with run d m show ?thesis by blast
qed

end
